theory Spec2Isabelle
  imports Complex_Main "HOL-Library.Finite_Map" "HOL-Library.Sublist"
begin

section \<open>Python values shared by both modules\<close>

text \<open>
  Exceptions are values. \<open>Exception_class\<close> tells the classes that derive from Python's
  \<open>Exception\<close> from those that derive from \<open>BaseException\<close> only: an
  \<open>except Exception\<close> clause catches the former and lets the latter pass.
  \<open>SecurityError\<close> is the class declared in \<open>anomaly_detector.py\<close>; the string carried
  by \<open>RuntimeError\<close> and \<open>ValueError\<close> is the message the source gives.
\<close>

datatype exn =
    ValueError string
  | TypeError
  | IndexError
  | FileNotFoundError
  | FileExistsError
  | PermissionError
  | OSError
  | EOFError
  | UnpicklingError
  | ImportError
  | RuntimeError string
  | SecurityError string
  | KeyboardInterrupt

fun Exception_class :: "exn \<Rightarrow> bool" where
  "Exception_class KeyboardInterrupt = False"
| "Exception_class _ = True"

text \<open>
  A Python float is a real number, plus or minus infinity, or NaN. Rounding is not
  modelled: arithmetic on finite values is exact. Comparisons follow IEEE 754: every
  comparison with NaN is false.
\<close>

datatype fval = Fin real | PInf | NInf | NaN

fun flt :: "fval \<Rightarrow> fval \<Rightarrow> bool" where
  "flt NaN _ = False"
| "flt _ NaN = False"
| "flt (Fin a) (Fin b) = (a < b)"
| "flt (Fin _) PInf = True"
| "flt (Fin _) NInf = False"
| "flt PInf _ = False"
| "flt NInf NInf = False"
| "flt NInf _ = True"

definition fle :: "fval \<Rightarrow> fval \<Rightarrow> bool" where
  "fle a b = (a \<noteq> NaN \<and> b \<noteq> NaN \<and> (a = b \<or> flt a b))"

definition fge :: "fval \<Rightarrow> fval \<Rightarrow> bool" where
  "fge a b = fle b a"

fun fsub :: "fval \<Rightarrow> fval \<Rightarrow> fval" where
  "fsub NaN _ = NaN"
| "fsub _ NaN = NaN"
| "fsub (Fin a) (Fin b) = Fin (a - b)"
| "fsub (Fin _) PInf = NInf"
| "fsub (Fin _) NInf = PInf"
| "fsub PInf PInf = NaN"
| "fsub PInf _ = PInf"
| "fsub NInf NInf = NaN"
| "fsub NInf _ = NInf"

definition isnan :: "fval \<Rightarrow> bool" where
  "isnan x = (x = NaN)"

definition isinf :: "fval \<Rightarrow> bool" where
  "isinf x = (x = PInf \<or> x = NInf)"

text \<open>\<open>float(n)\<close> of a Python int (the overflow of an int beyond the float range is not modelled).\<close>

definition float_of_int :: "int \<Rightarrow> fval" where
  "float_of_int n = Fin (real_of_int n)"

definition float_of_bool :: "bool \<Rightarrow> fval" where
  "float_of_bool b = (if b then Fin 1 else Fin 0)"

text \<open>
  \<open>math.log1p\<close> raises \<open>ValueError\<close> outside its domain; \<open>numpy.log1p\<close> returns
  \<open>-inf\<close> at \<open>-1\<close> and NaN below it.
\<close>

definition math_log1p :: "real \<Rightarrow> exn + real" where
  "math_log1p x = (if x \<le> -1 then Inl (ValueError ''math domain error'') else Inr (ln (1 + x)))"

fun np_log1p :: "fval \<Rightarrow> fval" where
  "np_log1p (Fin x) = (if -1 < x then Fin (ln (1 + x)) else if x = -1 then NInf else NaN)"
| "np_log1p PInf = PInf"
| "np_log1p NInf = NaN"
| "np_log1p NaN = NaN"

text \<open>
  \<open>numpy.nan_to_num(x, nan=0.0, posinf=0.0, neginf=0.0)\<close>, as \<open>engineer_features\<close> calls it.
\<close>

fun nan_to_num :: "fval \<Rightarrow> fval" where
  "nan_to_num (Fin x) = Fin x"
| "nan_to_num _ = Fin 0"




section \<open>packet_processor.py\<close>

subsection \<open>PacketWindow\<close>

text \<open>
  The ring buffer of \<open>PacketWindow\<close>. A slot holds any Python object: \<open>None\<close> is the
  placeholder \<open>__init__\<close> fills the buffer with, and it is also a value the caller may
  push, so items are of type \<open>'a option\<close>. \<open>(start + i) % capacity\<close> is only evaluated
  when \<open>capacity > 0\<close>, in the source as here.
\<close>

record 'a PacketWindow =
  pw_buffer :: "'a option list"
  pw_capacity :: nat
  pw_start :: nat
  pw_count :: nat

definition PacketWindow_init :: "int \<Rightarrow> 'a PacketWindow" where
  "PacketWindow_init capacity =
     (let c = nat (max 0 capacity)
      in \<lparr>pw_buffer = replicate c None, pw_capacity = c, pw_start = 0, pw_count = 0\<rparr>)"

definition pw_maxlen :: "'a PacketWindow \<Rightarrow> nat" where
  "pw_maxlen w = pw_capacity w"

definition pw_len :: "'a PacketWindow \<Rightarrow> nat" where
  "pw_len w = pw_count w"

definition pw_append :: "'a PacketWindow \<Rightarrow> 'a option \<Rightarrow> 'a PacketWindow" where
  "pw_append w item =
     (if pw_capacity w = 0 then w
      else if pw_count w < pw_capacity w then
        (let idx = (pw_start w + pw_count w) mod pw_capacity w
         in w\<lparr>pw_buffer := (pw_buffer w)[idx := item], pw_count := pw_count w + 1\<rparr>)
      else
        w\<lparr>pw_buffer := (pw_buffer w)[pw_start w := item],
          pw_start := (pw_start w + 1) mod pw_capacity w\<rparr>)"

definition pw_popleft :: "'a PacketWindow \<Rightarrow> exn + ('a option \<times> 'a PacketWindow)" where
  "pw_popleft w =
     (if pw_count w = 0 then Inl IndexError
      else Inr (pw_buffer w ! pw_start w,
                w\<lparr>pw_start := (pw_start w + 1) mod pw_capacity w,
                  pw_count := pw_count w - 1\<rparr>))"

definition pw_clear :: "'a PacketWindow \<Rightarrow> 'a PacketWindow" where
  "pw_clear w = w\<lparr>pw_start := 0, pw_count := 0\<rparr>"

fun pw_extend :: "'a PacketWindow \<Rightarrow> 'a option list \<Rightarrow> 'a PacketWindow" where
  "pw_extend w [] = w"
| "pw_extend w (record # records) = pw_extend (pw_append w record) records"

definition pw_to_list :: "'a PacketWindow \<Rightarrow> 'a option list" where
  "pw_to_list w =
     map (\<lambda>i. pw_buffer w ! ((pw_start w + i) mod pw_capacity w)) [0..<pw_count w]"

text \<open>
  The representation invariant of the class: the buffer has \<open>capacity\<close> slots, at most
  \<open>capacity\<close> of them are live, and \<open>start\<close> is a valid index. Every index the methods
  compute is then within the buffer, so no \<open>IndexError\<close> arises from the buffer accesses.
\<close>

definition window_ok :: "'a PacketWindow \<Rightarrow> bool" where
  "window_ok w =
     (length (pw_buffer w) = pw_capacity w \<and> pw_count w \<le> pw_capacity w \<and>
      (pw_start w < pw_capacity w \<or> pw_capacity w = 0))"

subsection \<open>PacketRecord and PacketProcessor\<close>

record PacketRecord =
  timestamp :: fval
  src_ip :: string
  dest_ip :: string
  protocol :: int
  packet_size :: int
  sport :: int
  dport :: int

definition blank_record :: PacketRecord where
  "blank_record =
     \<lparr>timestamp = Fin 0, src_ip = '''', dest_ip = '''', protocol = 0, packet_size = 0,
      sport = 0, dport = 0\<rparr>"

text \<open>
  The state of a \<open>PacketProcessor\<close>. \<open>active_ports\<close> is the dict of dicts
  \<open>src_ip \<rightarrow> (dport \<rightarrow> seen_at)\<close>. Records are mutable objects in the source; a record
  is in the window or in the pool, never in both, and it is overwritten in full before it
  is pushed, so records are values here. \<open>_feature_buffer\<close> is never read and is left out.
\<close>

record PacketProcessor =
  local_ips :: "string set"
  window_size :: int
  packet_data :: "PacketRecord PacketWindow"
  record_pool :: "PacketRecord list"
  last_timestamp :: "fval option"
  active_ports :: "(string, (int, fval) fmap) fmap"

definition PacketProcessor_init :: "string set \<Rightarrow> int \<Rightarrow> PacketProcessor" where
  "PacketProcessor_init ips wsize =
     \<lparr>local_ips = ips, window_size = wsize, packet_data = PacketWindow_init wsize,
      record_pool = replicate (nat wsize) blank_record, last_timestamp = None,
      active_ports = fmempty\<rparr>"

definition FEATURES :: "string list" where
  "FEATURES = [''protocol'', ''packet_size_log'', ''time_diff'', ''dport'',
               ''is_ephemeral_sport'', ''unique_dports_15s'', ''direction'']"


text \<open>
  \<open>_update_unique_dports\<close>: returns the count and the updated table. The test
  \<open>if ports:\<close> before the purge is kept as the source has it.
\<close>

definition update_unique_dports ::
  "PacketProcessor \<Rightarrow> fval \<Rightarrow> string \<Rightarrow> int \<Rightarrow> nat \<times> PacketProcessor" where
  "update_unique_dports self ts src dp =
     (let cutoff = fsub ts (Fin 15);
          ports0 = (case fmlookup (active_ports self) src of None \<Rightarrow> fmempty | Some d \<Rightarrow> d);
          ports1 = fmupd dp ts ports0;
          stale = (if ports1 \<noteq> fmempty
                   then ffilter (\<lambda>port. case fmlookup ports1 port of
                                           None \<Rightarrow> False
                                         | Some seen_at \<Rightarrow> flt seen_at cutoff) (fmdom ports1)
                   else {||});
          ports = fmdrop_fset stale ports1
      in if ports = fmempty
         then (0, self\<lparr>active_ports := fmdrop src (active_ports self)\<rparr>)
         else (fcard (fmdom ports), self\<lparr>active_ports := fmupd src ports (active_ports self)\<rparr>))"

definition compute_incremental_features ::
  "PacketProcessor \<Rightarrow> PacketRecord \<Rightarrow> exn + ((string \<times> fval) list \<times> PacketProcessor)" where
  "compute_incremental_features self record =
     (let ts = timestamp record;
          psize = real_of_int (packet_size record);
          time_diff = (case last_timestamp self of
                         None \<Rightarrow> Fin 0
                       | Some prev \<Rightarrow>
                           (let d = fsub ts prev in if flt d (Fin 0) then Fin 0 else d));
          self1 = self\<lparr>last_timestamp := Some ts\<rparr>
      in case (if psize > 0 then math_log1p psize else Inr 0) of
           Inl e \<Rightarrow> Inl e
         | Inr packet_size_log \<Rightarrow>
             (let is_ephemeral = float_of_bool (sport record \<ge> 49152);
                  (n, self2) = update_unique_dports self1 ts (src_ip record) (dport record);
                  direction = float_of_bool (local_ips self \<noteq> {} \<and>
                                             src_ip record \<in> local_ips self)
              in Inr ([(''protocol'', float_of_int (protocol record)),
                       (''packet_size_log'', Fin packet_size_log),
                       (''time_diff'', time_diff),
                       (''dport'', float_of_int (dport record)),
                       (''is_ephemeral_sport'', is_ephemeral),
                       (''unique_dports_15s'', float_of_int (int n)),
                       (''direction'', direction)], self2)))"

text \<open>
  \<open>extract_features\<close>. Its first half (the key look-ups and the coercions \<open>float\<close>,
  \<open>str\<close>, \<open>int\<close>) reads the packet only: it raises before the processor is touched, or
  yields the seven coerced values, which are the argument \<open>packet\<close> here.
\<close>

definition extract_features ::
  "PacketProcessor \<Rightarrow> PacketRecord \<Rightarrow> exn + ((string \<times> fval) list \<times> PacketProcessor)" where
  "extract_features self packet =
     (let maxlen = pw_maxlen (packet_data self);
          taken =
            (if record_pool self \<noteq> []
             then Inr (last (record_pool self), self\<lparr>record_pool := butlast (record_pool self)\<rparr>)
             else if maxlen \<noteq> 0 \<and> pw_len (packet_data self) = maxlen
             then (case pw_popleft (packet_data self) of
                     Inl e \<Rightarrow> Inl e
                   | Inr (reusable, w) \<Rightarrow>
                       Inr (case reusable of Some r \<Rightarrow> r | None \<Rightarrow> blank_record,
                            self\<lparr>packet_data := w\<rparr>))
             else Inr (blank_record, self))
      in case taken of
           Inl e \<Rightarrow> Inl e
         | Inr (r, self1) \<Rightarrow>
             (let record = r\<lparr>timestamp := timestamp packet, src_ip := src_ip packet,
                             dest_ip := dest_ip packet, protocol := protocol packet,
                             packet_size := packet_size packet, sport := sport packet,
                             dport := dport packet\<rparr>;
                  self2 = self1\<lparr>packet_data := pw_append (packet_data self1) (Some record)\<rparr>
              in compute_incremental_features self2 record))"

text \<open>
  \<open>engineer_features\<close>. The input frame is the list of its rows, in index order (the
  index is the default range index, so it is monotonic). \<open>is_monotonic_increasing\<close> is
  pandas' test on the timestamp column (false when a NaN is present); \<open>sort_values\<close> is
  the stable sort with NaN last. The result is the features table, a list of rows in the
  order of \<open>FEATURES\<close>, and the rows of the processed frame (whose added columns are the
  columns of the table before the final replacement).
\<close>

fun is_monotonic_increasing :: "fval list \<Rightarrow> bool" where
  "is_monotonic_increasing [] = True"
| "is_monotonic_increasing [x] = (x \<noteq> NaN)"
| "is_monotonic_increasing (x # y # ys) = (fle x y \<and> is_monotonic_increasing (y # ys))"

definition sorts_before :: "fval \<Rightarrow> fval \<Rightarrow> bool" where
  "sorts_before a b = (b = NaN \<or> fle a b)"

fun insort_timestamp :: "PacketRecord \<Rightarrow> PacketRecord list \<Rightarrow> PacketRecord list" where
  "insort_timestamp r [] = [r]"
| "insort_timestamp r (x # xs) =
     (if sorts_before (timestamp r) (timestamp x) then r # x # xs
      else x # insort_timestamp r xs)"

definition sort_values :: "PacketRecord list \<Rightarrow> PacketRecord list" where
  "sort_values df = foldr insort_timestamp df []"

definition time_diff_column :: "fval list \<Rightarrow> fval list" where
  "time_diff_column ts =
     (if ts = [] then [] else Fin 0 # map (\<lambda>(cur, prev). fsub cur prev) (zip (tl ts) ts))"

text \<open>
  The column \<open>unique_dports_15s\<close>: any exception of the block (here: an entry of the
  window that is \<open>None\<close>, on which \<open>dict(entry)\<close> raises) makes the column 0.0.
  A source address absent from the recent window has no count and is filled with 0.0,
  which is also the number of its distinct ports there.
\<close>

definition unique_dports_column :: "PacketProcessor \<Rightarrow> PacketRecord list \<Rightarrow> fval list" where
  "unique_dports_column self df_processed =
     (let entries = pw_to_list (packet_data self)
      in if pw_len (packet_data self) = 0 then map (\<lambda>_. Fin 0) df_processed
         else if list_ex (\<lambda>e. e = None) entries then map (\<lambda>_. Fin 0) df_processed
         else
           let current_window = List.map_filter id entries;
               ref_ts = last (map timestamp df_processed);
               cutoff = fsub ref_ts (Fin 15);
               recent = filter (\<lambda>r. fge (timestamp r) cutoff) current_window
           in map (\<lambda>row. float_of_int (int (length (remdups
                     (map dport (filter (\<lambda>r. src_ip r = src_ip row) recent))))))
                  df_processed)"

definition engineer_features ::
  "PacketProcessor \<Rightarrow> PacketRecord list \<Rightarrow> fval list list \<times> PacketRecord list" where
  "engineer_features self df =
     (if df = [] then ([], df)
      else
        let df_processed = (if is_monotonic_increasing (map timestamp df) then df
                            else sort_values df);
            ts = map timestamp df_processed;
            time_diff = time_diff_column ts;
            packet_size_log = map (\<lambda>r. np_log1p (float_of_int (packet_size r))) df_processed;
            is_ephemeral_sport = map (\<lambda>r. float_of_bool (sport r \<ge> 49152)) df_processed;
            unique_dports_15s = unique_dports_column self df_processed;
            direction = map (\<lambda>r. float_of_bool (local_ips self \<noteq> {} \<and>
                                                   src_ip r \<in> local_ips self)) df_processed;
            feature_view =
              map (\<lambda>i. [float_of_int (protocol (df_processed ! i)), packet_size_log ! i,
                         time_diff ! i, float_of_int (dport (df_processed ! i)),
                         is_ephemeral_sport ! i, unique_dports_15s ! i, direction ! i])
                  [0..<length df_processed];
            features = (if list_ex (list_ex isnan) feature_view
                        then map (map nan_to_num) feature_view
                        else feature_view)
        in (features, df_processed))"

section \<open>anomaly_detector.py\<close>

subsection \<open>Paths and the file system\<close>

text \<open>
  A path is what \<open>pathlib.Path\<close> parses a string into: whether it is anchored at the
  root, and its components. \<open>resolve_parts\<close> is \<open>Path.resolve\<close> on an absolute path of
  a file system without symbolic links: \<open>..\<close> steps up (and stays at the root), \<open>.\<close>
  and empty components vanish.
\<close>

datatype path = Path (is_absolute: bool) (parts: "string list")

fun resolve_parts :: "string list \<Rightarrow> string list \<Rightarrow> string list" where
  "resolve_parts acc [] = acc"
| "resolve_parts acc (p # ps) =
     (if p = ''..'' then resolve_parts (butlast acc) ps
      else if p = ''.'' \<or> p = [] then resolve_parts acc ps
      else resolve_parts (acc @ [p]) ps)"

definition parent :: "path \<Rightarrow> path" where
  "parent p = Path (is_absolute p) (butlast (parts p))"

definition joinpath :: "path \<Rightarrow> string \<Rightarrow> path" where
  "joinpath d name = Path (is_absolute d) (parts d @ [name])"

text \<open>
  A pickle stream, as far as the source depends on it, is the sequence of what the
  unpickling machine meets: a reference to a global \<open>(module, name)\<close>, on which the
  machine calls \<open>find_class\<close>; an opcode on which the library raises \<open>UnpicklingError\<close>;
  any other opcode; and \<open>STOP\<close>, with the object the stream has built. A stream that
  ends without \<open>STOP\<close> raises \<open>EOFError\<close>.

  The object a stream builds is a dict or something else. Of a dict the source reads four
  keys through \<open>get\<close>. For \<open>model\<close>, \<open>scaler\<close> and \<open>feature_names\<close> a missing key and
  the value \<open>None\<close> are the same to \<open>payload.get(key, None)\<close>; estimator objects are
  opaque and named by a number. The SHA-256 digest is kept symbolic: \<open>VSha256 data\<close> is
  the hex digest of \<open>data\<close>; \<open>VObj\<close> is any other object.

  The value under \<open>meta\<close> goes through \<open>dict()\<close>, and is told apart by what \<open>dict()\<close>
  does with it: a dict, which is copied; an object that is not a dict and that \<open>dict()\<close>
  accepts (an empty sequence, a list of pairs), given with the dict it is turned into; or
  an object on which \<open>dict()\<close> raises, given with the exception (\<open>TypeError\<close> for an
  int or \<open>None\<close>, \<open>ValueError\<close> for a non-empty string).
\<close>

datatype pyval = VStr string | VInt int | VFloat real | VSha256 string | VObj nat

datatype meta_field =
    MetaDict "(pyval \<times> pyval) list"
  | MetaSequence "(pyval \<times> pyval) list"
  | MetaRejected exn

record payload =
  p_model :: "nat option"
  p_scaler :: "nat option"
  p_feature_names :: "string list option"
  p_meta :: "meta_field option"

datatype unpickled = UDict payload | UOther

datatype pickle_op = GLOBAL string string | DATA | CORRUPT | STOP unpickled

record fs =
  files :: "path \<Rightarrow> pickle_op list option"
  dirs :: "path set"

text \<open>
  What the operating system and the libraries decide: the clock, the names \<open>mkstemp\<close>
  tries, and for each call that can fail for a reason outside the program (permissions,
  a full disk, an interrupt) whether it does and with which exception. A failing
  \<open>joblib.dump\<close> may leave a partly written file behind. A \<open>joblib.dump\<close> that returns
  has written a stream that builds the dict it was given; what the stream consists of
  before its \<open>STOP\<close> (references to the classes of the estimators, data opcodes) depends
  on the live objects and is the library's choice.
\<close>

datatype dump_item = ItemGlobal string string | ItemData

fun item_op :: "dump_item \<Rightarrow> pickle_op" where
  "item_op (ItemGlobal modname name) = GLOBAL modname name"
| "item_op ItemData = DATA"

datatype dump_outcome = DumpOk "dump_item list" | DumpFail "pickle_op list option" exn

record os_env =
  clock :: string
  mkdir_error :: "exn option"
  mkstemp_error :: "exn option"
  mkstemp_names :: "string list"
  close_error :: "exn option"
  dump_result :: dump_outcome
  replace_error :: "exn option"
  remove_error :: "exn option"

definition exists_path :: "fs \<Rightarrow> path \<Rightarrow> bool" where
  "exists_path s p = (files s p \<noteq> None \<or> p \<in> dirs s)"

definition ancestors :: "path \<Rightarrow> path list" where
  "ancestors d = map (\<lambda>k. Path (is_absolute d) (take k (parts d))) [0..<Suc (length (parts d))]"

text \<open>\<open>os.makedirs(d, exist_ok=True)\<close> and \<open>Path.mkdir(parents=True, exist_ok=True)\<close>.\<close>

definition mkdir_p :: "os_env \<Rightarrow> fs \<Rightarrow> path \<Rightarrow> exn + fs" where
  "mkdir_p env s d =
     (case mkdir_error env of
        Some e \<Rightarrow> Inl e
      | None \<Rightarrow>
          if list_ex (\<lambda>a. files s a \<noteq> None) (ancestors d) then Inl FileExistsError
          else Inr (s\<lparr>dirs := dirs s \<union> set (ancestors d)\<rparr>))"

definition os_makedirs :: "os_env \<Rightarrow> fs \<Rightarrow> path \<Rightarrow> exn + fs" where
  "os_makedirs env s d =
     (if \<not> is_absolute d \<and> parts d = [] then Inl FileNotFoundError else mkdir_p env s d)"

text \<open>
  \<open>tempfile.mkstemp(prefix="model-", suffix=".tmp", dir=directory)\<close> creates an empty
  file under the first name it tries that does not exist yet.
\<close>

definition mkstemp :: "os_env \<Rightarrow> fs \<Rightarrow> path \<Rightarrow> exn + (path \<times> fs)" where
  "mkstemp env s directory =
     (case mkstemp_error env of
        Some e \<Rightarrow> Inl e
      | None \<Rightarrow>
          (case filter (\<lambda>p. \<not> exists_path s p)
                  (map (\<lambda>r. joinpath directory (''model-'' @ r @ ''.tmp'')) (mkstemp_names env)) of
             [] \<Rightarrow> Inl FileExistsError
           | tmp_path # _ \<Rightarrow> Inr (tmp_path, s\<lparr>files := (files s)(tmp_path \<mapsto> [])\<rparr>)))"

definition os_replace :: "os_env \<Rightarrow> fs \<Rightarrow> path \<Rightarrow> path \<Rightarrow> exn + fs" where
  "os_replace env s src dst =
     (case replace_error env of
        Some e \<Rightarrow> Inl e
      | None \<Rightarrow>
          if files s src = None then Inl FileNotFoundError
          else if dst \<in> dirs s then Inl OSError
          else if src = dst then Inr s
          else Inr (s\<lparr>files := (files s)(dst := files s src, src := None)\<rparr>))"

definition os_remove :: "os_env \<Rightarrow> fs \<Rightarrow> path \<Rightarrow> exn + fs" where
  "os_remove env s p =
     (if files s p = None then Inl FileNotFoundError
      else case remove_error env of
             Some e \<Rightarrow> Inl e
           | None \<Rightarrow> Inr (s\<lparr>files := (files s)(p := None)\<rparr>))"

subsection \<open>AnomalyDetector\<close>

definition MODEL_BUNDLE_VERSION :: string where
  "MODEL_BUNDLE_VERSION = ''1.0.0''"

definition BANNED_GLOBALS :: "(string \<times> string) list" where
  "BANNED_GLOBALS =
     [(''os'', ''system''), (''posix'', ''system''), (''subprocess'', ''Popen''),
      (''subprocess'', ''call''), (''subprocess'', ''check_call''), (''builtins'', ''eval''),
      (''builtins'', ''exec''), (''builtins'', ''__import__'')]"

record AnomalyDetector =
  model :: "nat option"
  scaler :: "nat option"
  feature_names :: "string list option"
  meta :: "(pyval \<times> pyval) list"
  contamination :: real
  n_estimators :: int
  random_state :: int

fun comma_join :: "string list \<Rightarrow> string" where
  "comma_join [] = []"
| "comma_join [x] = x"
| "comma_join (x # y # ys) = x @ '','' @ comma_join (y # ys)"

definition feature_checksum :: "string list option \<Rightarrow> pyval" where
  "feature_checksum names =
     (case names of
        None \<Rightarrow> VStr []
      | Some ns \<Rightarrow> if ns = [] then VStr [] else VSha256 (comma_join ns))"

text \<open>
  The dict \<open>save_model\<close> builds, and the stream \<open>joblib.dump\<close> writes for it: the
  items the library chose, then \<open>STOP\<close> with the dict.
\<close>

definition bundle_payload :: "AnomalyDetector \<Rightarrow> string \<Rightarrow> payload" where
  "bundle_payload self trained_at =
     \<lparr>p_model = model self, p_scaler = scaler self, p_feature_names = feature_names self,
      p_meta = Some (MetaDict
        [(VStr ''contamination'', VFloat (contamination self)),
         (VStr ''n_estimators'', VInt (n_estimators self)),
         (VStr ''random_state'', VInt (random_state self)),
         (VStr ''version'', VStr MODEL_BUNDLE_VERSION),
         (VStr ''trained_at'', VStr trained_at),
         (VStr ''feature_checksum'', feature_checksum (feature_names self))])\<rparr>"

definition joblib_dump :: "dump_item list \<Rightarrow> payload \<Rightarrow> pickle_op list" where
  "joblib_dump items p = map item_op items @ [STOP (UDict p)]"

text \<open>
  The handler of \<open>save_model\<close>: \<open>except Exception\<close> removes the temporary file,
  suppressing \<open>FileNotFoundError\<close> only, and raises the exception again; an exception
  outside \<open>Exception\<close> passes the handler by.
\<close>

definition save_cleanup :: "os_env \<Rightarrow> fs \<Rightarrow> path \<Rightarrow> exn \<Rightarrow> (exn + unit) \<times> fs" where
  "save_cleanup env s tmp_path e =
     (if Exception_class e then
        (case os_remove env s tmp_path of
           Inr s' \<Rightarrow> (Inl e, s')
         | Inl FileNotFoundError \<Rightarrow> (Inl e, s)
         | Inl e' \<Rightarrow> (Inl e', s))
      else (Inl e, s))"

definition save_model :: "AnomalyDetector \<Rightarrow> os_env \<Rightarrow> fs \<Rightarrow> path \<Rightarrow> (exn + unit) \<times> fs" where
  "save_model self env s path =
     (case os_makedirs env s (parent path) of
        Inl e \<Rightarrow> (Inl e, s)
      | Inr s1 \<Rightarrow>
          let trained_at = clock env;
              payload = bundle_payload self trained_at;
              directory = (if \<not> is_absolute path \<and> parts (parent path) = []
                           then Path False [''.''] else parent path)
          in (case mkstemp env s1 directory of
               Inl e \<Rightarrow> (Inl e, s1)
             | Inr (tmp_path, s2) \<Rightarrow>
                 (case close_error env of
                    Some e \<Rightarrow> (Inl e, s2)
                  | None \<Rightarrow>
                      (case dump_result env of
                         DumpFail partial e \<Rightarrow>
                           save_cleanup env
                             (case partial of
                                None \<Rightarrow> s2
                              | Some c \<Rightarrow> s2\<lparr>files := (files s2)(tmp_path \<mapsto> c)\<rparr>)
                             tmp_path e
                       | DumpOk items \<Rightarrow>
                           (let s3 = s2\<lparr>files := (files s2)(tmp_path \<mapsto>
                                                        joblib_dump items payload)\<rparr>
                            in case os_replace env s3 tmp_path path of
                                 Inl e \<Rightarrow> save_cleanup env s3 tmp_path e
                               | Inr s4 \<Rightarrow> (Inr (), s4))))))"

text \<open>
  \<open>_SecureUnpickler.find_class\<close>; \<open>super_find_class\<close> is \<open>super().find_class\<close>, which imports the
  module and looks the name up, and may raise.
\<close>

definition find_class :: "(string \<Rightarrow> string \<Rightarrow> exn + unit) \<Rightarrow> string \<Rightarrow> string \<Rightarrow> exn + unit" where
  "find_class super_find_class modname name =
     (if (modname, name) \<in> set BANNED_GLOBALS
      then Inl (SecurityError (''Blocked unsafe global reference '' @ modname @ ''.'' @ name))
      else super_find_class modname name)"

fun unpickler_load :: "(string \<Rightarrow> string \<Rightarrow> exn + unit) \<Rightarrow> pickle_op list \<Rightarrow> exn + unpickled" where
  "unpickler_load fc [] = Inl EOFError"
| "unpickler_load fc (GLOBAL modname name # ops) =
     (case fc modname name of Inl e \<Rightarrow> Inl e | Inr _ \<Rightarrow> unpickler_load fc ops)"
| "unpickler_load fc (DATA # ops) = unpickler_load fc ops"
| "unpickler_load fc (CORRUPT # ops) = Inl UnpicklingError"
| "unpickler_load fc (STOP obj # ops) = Inr obj"

definition load_secure_payload ::
  "(string \<Rightarrow> string \<Rightarrow> exn + unit) \<Rightarrow> fs \<Rightarrow> path \<Rightarrow> exn + payload" where
  "load_secure_payload super_find_class s path =
     (let loaded = (case files s path of
                      None \<Rightarrow> Inl (if path \<in> dirs s then OSError else FileNotFoundError)
                    | Some fh \<Rightarrow> unpickler_load (find_class super_find_class) fh)
      in case loaded of
           Inl (SecurityError msg) \<Rightarrow> Inl (SecurityError msg)
         | Inl e \<Rightarrow> if Exception_class e then Inl (RuntimeError ''Failed to load model bundle'')
                    else Inl e
         | Inr UOther \<Rightarrow> Inl (RuntimeError ''Model bundle has unexpected structure'')
         | Inr (UDict p) \<Rightarrow> Inr p)"

definition load_model ::
  "(string \<Rightarrow> string \<Rightarrow> exn + unit) \<Rightarrow> fs \<Rightarrow> AnomalyDetector \<Rightarrow> path
     \<Rightarrow> (exn + unit) \<times> AnomalyDetector" where
  "load_model super_find_class s self path =
     (if \<not> exists_path s path then (Inl FileNotFoundError, self)
      else case load_secure_payload super_find_class s path of
             Inl e \<Rightarrow> (Inl e, self)
           | Inr p \<Rightarrow>
               (let self1 = self\<lparr>model := p_model p, scaler := p_scaler p,
                                 feature_names := p_feature_names p\<rparr>
                in case p_meta p of
                     Some (MetaRejected e) \<Rightarrow> (Inl e, self1)
                   | m \<Rightarrow>
                       (let self2 = self1\<lparr>meta := (case m of
                                                       Some (MetaDict d) \<Rightarrow> d
                                                     | Some (MetaSequence d) \<Rightarrow> d
                                                     | _ \<Rightarrow> [])\<rparr>
                        in if model self2 = None \<or> scaler self2 = None \<or> feature_names self2 = None
                           then (Inl (RuntimeError ''Loaded model bundle is incomplete.''), self2)
                           else (Inr (), self2))))"

text \<open>
  \<open>_resolve_model_path\<close>; \<open>model_dir\<close> is the constant \<open>DEFAULT_MODEL_DIR\<close>, an absolute
  resolved path given by its components.
\<close>

definition resolve_model_path ::
  "string list \<Rightarrow> os_env \<Rightarrow> fs \<Rightarrow> path \<Rightarrow> bool \<Rightarrow> (exn + path) \<times> fs" where
  "resolve_model_path model_dir env s candidate must_exist =
     (let checked =
            (if is_absolute candidate then Inr (Path True (resolve_parts [] (parts candidate)))
             else
               let resolved = Path True (resolve_parts [] (model_dir @ parts candidate))
               in (if prefix model_dir (parts resolved) then Inr resolved
                   else Inl (ValueError ''Model path escapes allowed directory'')))
      in (case checked of
            Inl e \<Rightarrow> (Inl e, s)
          | Inr resolved \<Rightarrow>
              (if must_exist \<and> \<not> exists_path s resolved then (Inl FileNotFoundError, s)
               else (case mkdir_p env s (parent resolved) of
                       Inl e \<Rightarrow> (Inl e, s)
                     | Inr s' \<Rightarrow> (Inr resolved, s')))))"

definition save ::
  "string list \<Rightarrow> AnomalyDetector \<Rightarrow> os_env \<Rightarrow> fs \<Rightarrow> path \<Rightarrow> (exn + path) \<times> fs" where
  "save model_dir self env s path =
     (case resolve_model_path model_dir env s path False of
        (Inl e, s') \<Rightarrow> (Inl e, s')
      | (Inr resolved, s') \<Rightarrow>
          (case save_model self env s' resolved of
             (Inl e, s'') \<Rightarrow> (Inl e, s'')
           | (Inr _, s'') \<Rightarrow> (Inr resolved, s'')))"

definition load ::
  "string list \<Rightarrow> (string \<Rightarrow> string \<Rightarrow> exn + unit) \<Rightarrow> AnomalyDetector \<Rightarrow> os_env \<Rightarrow> fs \<Rightarrow> path
     \<Rightarrow> (exn + unit) \<times> AnomalyDetector \<times> fs" where
  "load model_dir super_find_class self env s path =
     (case resolve_model_path model_dir env s path True of
        (Inl e, s') \<Rightarrow> (Inl e, self, s')
      | (Inr resolved, s') \<Rightarrow>
          (case load_model super_find_class s' self resolved of (r, self') \<Rightarrow> (r, self', s')))"


section \<open>Concrete states used by the witnesses and counterexamples\<close>


text \<open>A packet whose \<open>packet_size\<close> is \<open>-1\<close>.\<close>

definition size_minus_one_packet :: PacketRecord where
  "size_minus_one_packet = blank_record\<lparr>packet_size := - 1\<rparr>"

text \<open>
  An environment in which no call fails, a trained detector, a bundle saved earlier under
  the model directory \<open>/srv/models\<close>, and the temporary file \<open>mkstemp\<close> creates next to it.
\<close>

definition calm_env :: os_env where
  "calm_env =
     \<lparr>clock = ''2024-01-01T00:00:00+00:00'', mkdir_error = None, mkstemp_error = None,
      mkstemp_names = [''k3x9q2ab''], close_error = None, dump_result = DumpOk [ItemData],
      replace_error = None, remove_error = None\<rparr>"

definition trained_detector :: AnomalyDetector where
  "trained_detector =
     \<lparr>model = Some 1, scaler = Some 2, feature_names = Some [''f1'', ''f2''], meta = [],
      contamination = 5 / 100, n_estimators = 20, random_state = 42\<rparr>"

definition bundle_path :: path where
  "bundle_path = Path True [''srv'', ''models'', ''model.pkl'']"

definition temp_path :: path where
  "temp_path = Path True [''srv'', ''models'', ''model-k3x9q2ab.tmp'']"

definition old_bundle_fs :: fs where
  "old_bundle_fs =
     \<lparr>files = (\<lambda>_. None)(bundle_path \<mapsto>
                joblib_dump [ItemData] (bundle_payload trained_detector ''2023-12-31T00:00:00+00:00'')),
      dirs = {Path True [], Path True [''srv''], Path True [''srv'', ''models'']}\<rparr>"

text \<open>
  A later clock; a \<open>super().find_class\<close> that resolves every global, and one that fails to
  import the module \<open>nosuchmodule\<close>; the file system after a first save, and the detector
  that loads that bundle.
\<close>

definition later_env :: os_env where
  "later_env = calm_env\<lparr>clock := ''2024-01-02T00:00:00+00:00''\<rparr>"

definition accept_all :: "string \<Rightarrow> string \<Rightarrow> exn + unit" where
  "accept_all modname name = Inr ()"

definition first_save_fs :: fs where
  "first_save_fs = snd (save_model trained_detector calm_env old_bundle_fs bundle_path)"

definition reloaded_detector :: AnomalyDetector where
  "reloaded_detector = snd (load_model accept_all first_save_fs trained_detector bundle_path)"

definition models_dir :: "string list" where
  "models_dir = [''srv'', ''models'']"

definition malicious_path :: path where
  "malicious_path = Path True [''srv'', ''models'', ''evil.pkl'']"

definition missing_module :: "string \<Rightarrow> string \<Rightarrow> exn + unit" where
  "missing_module modname name = (if modname = ''nosuchmodule'' then Inl ImportError else Inr ())"

definition one_file_fs :: "path \<Rightarrow> pickle_op list \<Rightarrow> fs" where
  "one_file_fs p ops = \<lparr>files = (\<lambda>_. None)(p \<mapsto> ops), dirs = {}\<rparr>"

definition outside_path :: path where
  "outside_path = Path True [''tmp'', ''evil.pkl'']"

definition unchecked_payload :: "string list \<Rightarrow> payload" where
  "unchecked_payload names =
     \<lparr>p_model = Some 1, p_scaler = Some 2, p_feature_names = Some names,
      p_meta = Some (MetaDict [(VStr ''feature_checksum'', VStr ''bad'')])\<rparr>"

section \<open>Properties of PacketWindow\<close>

lemma window_ok_init: "window_ok (PacketWindow_init c)"
  by (auto simp: window_ok_def PacketWindow_init_def Let_def)

lemma window_ok_append: "window_ok w \<Longrightarrow> window_ok (pw_append w x)"
  by (auto simp: window_ok_def pw_append_def Let_def)

lemma mod_shift_le:
  fixes s c i j :: nat
  assumes "i \<le> j" "j < c" "(s + i) mod c = (s + j) mod c"
  shows "i = j"
proof -
  have "s + i \<le> s + j" using assms(1) by simp
  then have "c dvd (s + j) - (s + i)"
    using assms(3) mod_eq_dvd_iff_nat [of "s + i" "s + j" c] by simp
  then have "c dvd j - i" by simp
  moreover have "j - i < c" using assms(2) by simp
  ultimately have "j - i = 0" by (meson dvd_imp_le not_less zero_less_iff_neq_zero)
  with assms(1) show ?thesis by simp
qed

lemma mod_shift_inj:
  fixes s c i j :: nat
  assumes "i < c" "j < c" "(s + i) mod c = (s + j) mod c"
  shows "i = j"
proof (cases "i \<le> j")
  case True
  then show ?thesis using assms mod_shift_le by blast
next
  case False
  then have "j \<le> i" by simp
  then show ?thesis using assms mod_shift_le [of j i c s] by simp
qed

lemma to_list_append_room:
  assumes "window_ok w" "pw_count w < pw_capacity w"
  shows "pw_to_list (pw_append w x) = pw_to_list w @ [x]"
proof -
  let ?c = "pw_capacity w" and ?s = "pw_start w" and ?n = "pw_count w"
  let ?idx = "(?s + ?n) mod ?c"
  have len: "length (pw_buffer w) = ?c" using assms(1) by (simp add: window_ok_def)
  have cpos: "0 < ?c" using assms(2) by simp
  have old: "(pw_buffer w)[?idx := x] ! ((?s + i) mod ?c) = pw_buffer w ! ((?s + i) mod ?c)"
    if "i < ?n" for i
  proof -
    have "(?s + i) mod ?c \<noteq> ?idx"
      using mod_shift_inj [of i ?c ?n ?s] that assms(2) by auto
    then show ?thesis by simp
  qed
  have new: "(pw_buffer w)[?idx := x] ! ?idx = x"
    using len cpos by simp
  have "pw_to_list (pw_append w x) =
        map (\<lambda>i. (pw_buffer w)[?idx := x] ! ((?s + i) mod ?c)) [0..<Suc ?n]"
    using assms(2) cpos by (simp add: pw_to_list_def pw_append_def Let_def)
  also have "\<dots> = map (\<lambda>i. (pw_buffer w)[?idx := x] ! ((?s + i) mod ?c)) [0..<?n] @ [x]"
    using new by simp
  also have "map (\<lambda>i. (pw_buffer w)[?idx := x] ! ((?s + i) mod ?c)) [0..<?n] = pw_to_list w"
    unfolding pw_to_list_def using old by (intro map_cong) auto
  finally show ?thesis .
qed

lemma to_list_append_full:
  assumes "window_ok w" "pw_count w = pw_capacity w" "0 < pw_capacity w"
  shows "pw_to_list (pw_append w x) = tl (pw_to_list w) @ [x]"
proof (rule nth_equalityI)
  let ?c = "pw_capacity w" and ?s = "pw_start w"
  have len: "length (pw_buffer w) = ?c" and st: "?s < ?c"
    using assms(1,3) by (auto simp: window_ok_def)
  have app: "pw_append w x =
     w\<lparr>pw_buffer := (pw_buffer w)[?s := x], pw_start := (?s + 1) mod ?c\<rparr>"
    using assms(2,3) by (simp add: pw_append_def)
  show L: "length (pw_to_list (pw_append w x)) = length (tl (pw_to_list w) @ [x])"
    using assms(2,3) by (simp add: app pw_to_list_def)
  fix i assume "i < length (pw_to_list (pw_append w x))"
  then have i: "i < ?c" using assms(2) by (simp add: app pw_to_list_def)
  have shift: "(Suc ?s mod ?c + i) mod ?c = Suc (?s + i) mod ?c"
    using mod_add_left_eq [of "Suc ?s" ?c i] by simp
  have lhs: "pw_to_list (pw_append w x) ! i = (pw_buffer w)[?s := x] ! ((?s + Suc i) mod ?c)"
    using i assms(2) by (simp add: app pw_to_list_def shift)
  show "pw_to_list (pw_append w x) ! i = (tl (pw_to_list w) @ [x]) ! i"
  proof (cases "Suc i < ?c")
    case True
    have "(?s + Suc i) mod ?c \<noteq> (?s + 0) mod ?c"
      using mod_shift_inj [of "Suc i" ?c 0 ?s] True assms(3) by auto
    then have ne: "(?s + Suc i) mod ?c \<noteq> ?s" using st by simp
    have "i < length (tl (pw_to_list w))"
      using True assms(2) by (simp add: pw_to_list_def)
    then have "(tl (pw_to_list w) @ [x]) ! i = pw_to_list w ! Suc i"
      by (simp add: nth_append nth_tl)
    also have "\<dots> = pw_buffer w ! ((?s + Suc i) mod ?c)"
      using True assms(2) by (simp add: pw_to_list_def)
    finally show ?thesis using lhs ne by simp
  next
    case False
    then have e: "Suc i = ?c" using i by simp
    have "(?s + Suc i) mod ?c = ?s" using st by (simp add: e)
    then have "pw_to_list (pw_append w x) ! i = x" using lhs len st by simp
    moreover have "length (tl (pw_to_list w)) = i"
      using e assms(2) by (simp add: pw_to_list_def)
    then have "(tl (pw_to_list w) @ [x]) ! i = x"
      by (simp add: nth_append)
    ultimately show ?thesis by simp
  qed
qed

lemma count_append:
  "pw_count (pw_append w x) =
     (if pw_capacity w = 0 then pw_count w
      else if pw_count w < pw_capacity w then Suc (pw_count w) else pw_count w)"
  by (simp add: pw_append_def Let_def)

lemma capacity_append: "pw_capacity (pw_append w x) = pw_capacity w"
  by (simp add: pw_append_def Let_def)

lemma length_to_list: "length (pw_to_list w) = pw_count w"
  by (simp add: pw_to_list_def)

lemma extend_snoc: "pw_extend w (xs @ [x]) = pw_append (pw_extend w xs) x"
  by (induction xs arbitrary: w) simp_all

lemma tl_drop_Suc: "tl (drop n ys) = drop (Suc n) ys"
  by (simp add: drop_Suc tl_drop)

lemma extend_invariant:
  assumes "window_ok w"
  shows "window_ok (pw_extend w xs) \<and> pw_capacity (pw_extend w xs) = pw_capacity w \<and>
         pw_to_list (pw_extend w xs) =
           drop (length (pw_to_list w @ xs) - pw_capacity w) (pw_to_list w @ xs)"
proof (induction xs rule: rev_induct)
  case Nil
  then show ?case using assms by (simp add: window_ok_def length_to_list)
next
  case (snoc x xs)
  let ?v = "pw_extend w xs" and ?c = "pw_capacity w" and ?all = "pw_to_list w @ xs"
  have ok: "window_ok ?v" and cap: "pw_capacity ?v = ?c"
    and tl: "pw_to_list ?v = drop (length ?all - ?c) ?all"
    using snoc.IH by simp_all
  have cnt: "pw_count ?v = min (length ?all) ?c"
    using arg_cong [OF tl, of length] by (simp add: length_to_list)
  have "pw_to_list (pw_append ?v x) = drop (length (?all @ [x]) - ?c) (?all @ [x])"
  proof (cases "?c = 0")
    case True
    then have "pw_append ?v x = ?v" using cap by (simp add: pw_append_def)
    then show ?thesis using tl True by simp
  next
    case False
    show ?thesis
    proof (cases "pw_count ?v < ?c")
      case True
      then have "length ?all < ?c" using cnt by simp
      then show ?thesis
        using to_list_append_room [OF ok, of x] True cap tl by simp
    next
      case False
      then have full: "pw_count ?v = pw_capacity ?v" and ge: "?c \<le> length ?all"
        using cnt cap by simp_all
      have "pw_to_list (pw_append ?v x) = tl (drop (length ?all - ?c) ?all) @ [x]"
        using to_list_append_full [OF ok full, of x] \<open>?c \<noteq> 0\<close> cap tl by simp
      also have "\<dots> = drop (Suc (length ?all - ?c)) ?all @ [x]"
        by (simp only: tl_drop_Suc)
      also have "\<dots> = drop (length (?all @ [x]) - ?c) (?all @ [x])"
        using ge \<open>?c \<noteq> 0\<close> by (simp add: Suc_diff_le)
      finally show ?thesis .
    qed
  qed
  then show ?case
    using ok cap by (simp add: extend_snoc window_ok_append capacity_append)
qed

lemma to_list_extend_init:
  "pw_to_list (pw_extend (PacketWindow_init C) ys) = drop (length ys - nat C) ys"
proof -
  have "pw_capacity (PacketWindow_init C :: 'a PacketWindow) = nat C"
    by (simp add: PacketWindow_init_def Let_def)
  moreover have "pw_to_list (PacketWindow_init C :: 'a PacketWindow) = []"
    by (simp add: PacketWindow_init_def Let_def pw_to_list_def)
  ultimately show ?thesis
    using extend_invariant [OF window_ok_init, of C ys] by simp
qed

lemma maxlen_extend_init: "pw_maxlen (pw_extend (PacketWindow_init C) ys) = nat C"
  using extend_invariant [OF window_ok_init, of C ys]
  by (simp add: pw_maxlen_def PacketWindow_init_def Let_def)

text \<open>
  C6. For every capacity \<open>C\<close> (a negative one is clamped to 0 by \<open>__init__\<close>) and
  every sequence \<open>xs\<close> of pushes into a fresh window: after every push, that is after
  every prefix of \<open>xs\<close>, the length is at most \<open>C\<close>; iterating the window yields the
  newest \<open>C\<close> pushed items, oldest first, in the order they were pushed (all of them
  while fewer than \<open>C\<close> were pushed); and a window of capacity 0 stays as it is under a
  push and iterates to nothing.
\<close>

theorem PacketWindow_push_sequence:
  fixes xs :: "'a option list" and x :: "'a option"
  shows
  "(\<forall>n. pw_len (pw_extend (PacketWindow_init C) (take n xs)) \<le> nat C) \<and>
   pw_maxlen (pw_extend (PacketWindow_init C) xs) = nat C \<and>
   pw_to_list (pw_extend (PacketWindow_init C) xs) = drop (length xs - nat C) xs \<and>
   pw_append (PacketWindow_init 0) x = PacketWindow_init 0 \<and>
   pw_to_list (pw_extend (PacketWindow_init 0) xs) = []"
proof -
  have "pw_len (pw_extend (PacketWindow_init C) ys) \<le> nat C" for ys :: "'a option list"
    using arg_cong [OF to_list_extend_init [of C ys], of length]
    by (simp add: length_to_list pw_len_def)
  moreover have "pw_append (PacketWindow_init 0) x = PacketWindow_init 0"
    by (simp add: pw_append_def PacketWindow_init_def)
  moreover have "pw_to_list (pw_extend (PacketWindow_init 0) xs) = []"
    by (simp add: to_list_extend_init)
  ultimately show ?thesis
    by (simp add: to_list_extend_init maxlen_extend_init)
qed

section \<open>Properties of PacketProcessor\<close>

lemma just_seen_not_stale: "\<not> flt t (fsub t (Fin 15))"
  by (cases t) simp_all

lemma update_unique_dports_keeps_port:
  "\<exists>n ports. update_unique_dports self ts src dp =
       (n, self\<lparr>active_ports := fmupd src ports (active_ports self)\<rparr>) \<and>
     1 \<le> n \<and> n = fcard (fmdom ports) \<and> fmlookup ports dp = Some ts"
proof -
  define ports0 where
    "ports0 = (case fmlookup (active_ports self) src of None \<Rightarrow> fmempty | Some d \<Rightarrow> d)"
  define ports1 where "ports1 = fmupd dp ts ports0"
  define stale where
    "stale = (if ports1 \<noteq> fmempty
              then ffilter (\<lambda>port. case fmlookup ports1 port of
                                      None \<Rightarrow> False
                                    | Some seen_at \<Rightarrow> flt seen_at (fsub ts (Fin 15))) (fmdom ports1)
              else {||})"
  define ports where "ports = fmdrop_fset stale ports1"
  have "dp |\<notin>| stale"
    by (simp add: stale_def ports1_def just_seen_not_stale)
  then have look: "fmlookup ports dp = Some ts"
    by (simp add: ports_def ports1_def)
  then have ne: "ports \<noteq> fmempty" by auto
  have "dp |\<in>| fmdom ports" using look by (simp add: fmlookup_dom_iff)
  then have "fmdom ports \<noteq> {||}" by auto
  then have "0 < fcard (fmdom ports)" by (metis fcard_0_eq not_gr_zero)
  then have pos: "1 \<le> fcard (fmdom ports)" by linarith
  have "update_unique_dports self ts src dp =
          (fcard (fmdom ports), self\<lparr>active_ports := fmupd src ports (active_ports self)\<rparr>)"
    using ne
    by (simp add: update_unique_dports_def Let_def ports_def stale_def ports1_def ports0_def)
  then show ?thesis using pos look by blast
qed


lemma compute_incremental_features_unique:
  "\<exists>feats n ports. compute_incremental_features self record =
       Inr (feats, self\<lparr>last_timestamp := Some (timestamp record),
                      active_ports := fmupd (src_ip record) ports (active_ports self)\<rparr>) \<and>
     map_of feats ''unique_dports_15s'' = Some (Fin (real n)) \<and> 1 \<le> n \<and>
     n = fcard (fmdom ports) \<and> fmlookup ports (dport record) = Some (timestamp record) \<and>
     map_of feats ''packet_size_log'' =
       Some (if 0 < packet_size record then Fin (ln (1 + real_of_int (packet_size record)))
             else Fin 0)"
proof -
  obtain n ports where
    u: "update_unique_dports (self\<lparr>last_timestamp := Some (timestamp record)\<rparr>)
          (timestamp record) (src_ip record) (dport record) =
        (n, self\<lparr>last_timestamp := Some (timestamp record),
                  active_ports := fmupd (src_ip record) ports (active_ports self)\<rparr>)"
    and n: "1 \<le> n" "n = fcard (fmdom ports)"
    and p: "fmlookup ports (dport record) = Some (timestamp record)"
    using update_unique_dports_keeps_port
      [of "self\<lparr>last_timestamp := Some (timestamp record)\<rparr>"
          "timestamp record" "src_ip record" "dport record"]
    by auto
  define y where
    "y = (if 0 < packet_size record then ln (1 + real_of_int (packet_size record)) else 0)"
  have y: "(if 0 < packet_size record
            then math_log1p (real_of_int (packet_size record)) else Inr 0) = Inr y"
    by (simp add: y_def math_log1p_def)
  have yv: "Fin y = (if 0 < packet_size record
                     then Fin (ln (1 + real_of_int (packet_size record))) else Fin 0)"
    by (simp add: y_def)
  have "\<exists>feats. compute_incremental_features self record =
          Inr (feats, self\<lparr>last_timestamp := Some (timestamp record),
                 active_ports := fmupd (src_ip record) ports (active_ports self)\<rparr>) \<and>
          map_of feats ''unique_dports_15s'' = Some (Fin (real n)) \<and>
          map_of feats ''packet_size_log'' = Some (Fin y)"
    by (simp add: compute_incremental_features_def Let_def u y float_of_int_def)
  then obtain feats where
    c: "compute_incremental_features self record =
          Inr (feats, self\<lparr>last_timestamp := Some (timestamp record),
                 active_ports := fmupd (src_ip record) ports (active_ports self)\<rparr>)"
    and f: "map_of feats ''unique_dports_15s'' = Some (Fin (real n))"
           "map_of feats ''packet_size_log'' = Some (Fin y)"
    by blast
  show ?thesis
    using c f n p yv by auto
qed

lemma record_overwritten:
  "r\<lparr>timestamp := timestamp p, src_ip := src_ip p, dest_ip := dest_ip p,
      protocol := protocol p, packet_size := packet_size p, sport := sport p,
      dport := dport p\<rparr> = (p :: PacketRecord)"
  by (cases r, cases p) simp

lemma extract_features_reaches_compute:
  "\<exists>self2. extract_features self packet = compute_incremental_features self2 packet"
proof (cases "record_pool self \<noteq> []")
  case True
  then show ?thesis
    by (auto simp add: extract_features_def Let_def record_overwritten
             simp del: butlast.simps last.simps)
next
  case False
  show ?thesis
  proof (cases "pw_maxlen (packet_data self) \<noteq> 0 \<and>
                pw_len (packet_data self) = pw_maxlen (packet_data self)")
    case True
    then have "pw_count (packet_data self) \<noteq> 0"
      by (simp add: pw_len_def pw_maxlen_def)
    then show ?thesis
      using False True
      by (auto simp add: extract_features_def Let_def record_overwritten pw_popleft_def)
  next
    case no_reuse: False
    then show ?thesis
      using False by (auto simp add: extract_features_def Let_def record_overwritten)
  qed
qed

text \<open>
  C10. Every call of \<open>extract_features\<close> whose packet passes the coercions returns, and
  the value it returns under
  \<open>unique_dports_15s\<close> is the float of a count \<open>n\<close> with \<open>n \<ge> 1\<close>: the table of the
  packet's source is still in \<open>active_ports\<close> afterwards (the branch that drops it and
  returns 0 is not taken), \<open>n\<close> is its size, and the port just observed is in it with the
  current timestamp, because a timestamp is never smaller than itself minus 15.0 (also
  when it is infinite or NaN).
\<close>

theorem extract_features_unique_dports_at_least_one:
  "\<exists>feats self' n ports.
     extract_features self packet = Inr (feats, self') \<and>
     map_of feats ''unique_dports_15s'' = Some (Fin (real n)) \<and> 1 \<le> n \<and>
     fmlookup (active_ports self') (src_ip packet) = Some ports \<and>
     n = fcard (fmdom ports) \<and>
     fmlookup ports (dport packet) = Some (timestamp packet)"
proof -
  obtain self2 where
    e: "extract_features self packet = compute_incremental_features self2 packet"
    using extract_features_reaches_compute by blast
  obtain feats n ports where
    c: "compute_incremental_features self2 packet =
         Inr (feats, self2\<lparr>last_timestamp := Some (timestamp packet),
                         active_ports := fmupd (src_ip packet) ports (active_ports self2)\<rparr>)"
    and r: "map_of feats ''unique_dports_15s'' = Some (Fin (real n))" "1 \<le> n"
           "n = fcard (fmdom ports)" "fmlookup ports (dport packet) = Some (timestamp packet)"
    using compute_incremental_features_unique by blast
  show ?thesis
    using e c r by auto
qed

section \<open>Properties of set_window_size\<close>






section \<open>Properties of engineer_features\<close>

lemma nan_to_num_not_nan: "\<not> list_ex isnan (map nan_to_num row)"
proof -
  have "NaN \<noteq> nan_to_num v" for v by (cases v) simp_all
  then show ?thesis by (auto simp: list_ex_iff isnan_def)
qed

lemma replaced_no_nan:
  "\<not> list_ex (list_ex isnan)
       (if list_ex (list_ex isnan) table then map (map nan_to_num) table else table)"
proof -
  have "\<not> list_ex (list_ex isnan) (map (map nan_to_num) table)"
    using nan_to_num_not_nan by (auto simp: list_ex_iff)
  then show ?thesis by simp
qed

lemma engineer_features_no_nan: "\<not> list_ex (list_ex isnan) (fst (engineer_features self df))"
proof (cases "df = []")
  case True
  then show ?thesis by (simp add: engineer_features_def)
next
  case False
  then obtain table where
    "fst (engineer_features self df) =
       (if list_ex (list_ex isnan) table then map (map nan_to_num) table else table)"
    by (simp add: engineer_features_def Let_def del: upt_Suc)
  then show ?thesis by (simp only: replaced_no_nan not_False_eq_True)
qed


lemma engineer_features_size_minus_one:
  "fst (engineer_features (PacketProcessor_init {} 2) [size_minus_one_packet]) =
     [[Fin 0, NInf, Fin 0, Fin 0, Fin 0, Fin 0, Fin 0]]"
  by (simp add: engineer_features_def Let_def size_minus_one_packet_def blank_record_def
        time_diff_column_def unique_dports_column_def PacketProcessor_init_def
        PacketWindow_init_def pw_len_def float_of_int_def float_of_bool_def isnan_def)

text \<open>
  C8 at the failing input: a frame of one row with \<open>packet_size = -1\<close>, given to a
  processor with an empty window. \<open>numpy.log1p(-1)\<close> is \<open>-inf\<close>; the table holds no
  NaN, so the test \<open>np.isnan(feature_view).any()\<close> is false, \<open>nan_to_num\<close> is skipped,
  and the returned features table holds an infinite value.
\<close>

theorem engineer_features_returns_infinity:
  "list_ex (list_ex isinf)
     (fst (engineer_features (PacketProcessor_init {} 2) [size_minus_one_packet]))"
  by (simp add: engineer_features_size_minus_one isinf_def)

text \<open>
  C9 at the failing input: for the packet of size \<open>-1\<close> the incremental path
  (\<open>extract_features\<close>) returns \<open>packet_size_log = 0\<close>, as the claim says, and the batch
  path (\<open>engineer_features\<close>, column 1 of the features table) returns \<open>-inf\<close>.
\<close>

theorem packet_size_log_paths_differ:
  "(\<exists>feats self'.
      extract_features (PacketProcessor_init {} 2) size_minus_one_packet = Inr (feats, self') \<and>
      map_of feats ''packet_size_log'' = Some (Fin 0)) \<and>
   map (\<lambda>row. row ! 1)
     (fst (engineer_features (PacketProcessor_init {} 2) [size_minus_one_packet])) = [NInf]"
proof -
  obtain self2 where
    e: "extract_features (PacketProcessor_init {} 2) size_minus_one_packet =
          compute_incremental_features self2 size_minus_one_packet"
    using extract_features_reaches_compute by blast
  obtain feats self' where
    "compute_incremental_features self2 size_minus_one_packet = Inr (feats, self')"
    "map_of feats ''packet_size_log'' =
       Some (if 0 < packet_size size_minus_one_packet
             then Fin (ln (1 + real_of_int (packet_size size_minus_one_packet))) else Fin 0)"
    using compute_incremental_features_unique [of self2 size_minus_one_packet] by blast
  then have "\<exists>feats self'.
      extract_features (PacketProcessor_init {} 2) size_minus_one_packet = Inr (feats, self') \<and>
      map_of feats ''packet_size_log'' = Some (Fin 0)"
    using e by (simp add: size_minus_one_packet_def blank_record_def)
  then show ?thesis
    by (simp add: engineer_features_size_minus_one)
qed

section \<open>Properties of save_model\<close>

lemma mkdir_p_files: "mkdir_p env s d = Inr s1 \<Longrightarrow> files s1 = files s"
  by (auto simp: mkdir_p_def split: option.splits if_splits)

lemma os_makedirs_files: "os_makedirs env s d = Inr s1 \<Longrightarrow> files s1 = files s"
  by (auto simp: os_makedirs_def dest: mkdir_p_files split: if_splits)

lemma mkstemp_fresh:
  assumes "mkstemp env s d = Inr (tmp, s2)"
  shows "files s tmp = None \<and> files s2 = (files s)(tmp \<mapsto> []) \<and> dirs s2 = dirs s"
proof -
  let ?cands = "map (\<lambda>r. joinpath d (''model-'' @ r @ ''.tmp'')) (mkstemp_names env)"
  from assms obtain rest where
    f: "filter (\<lambda>p. \<not> exists_path s p) ?cands = tmp # rest"
    and s2: "s2 = s\<lparr>files := (files s)(tmp \<mapsto> [])\<rparr>"
    by (auto simp: mkstemp_def split: option.splits list.splits)
  have "tmp \<in> set (filter (\<lambda>p. \<not> exists_path s p) ?cands)"
    unfolding f by simp
  then have "\<not> exists_path s tmp" by simp
  then show ?thesis using s2 by (simp add: exists_path_def)
qed

lemma save_cleanup_removes:
  assumes "Exception_class e" "remove_error env = None"
  shows "save_cleanup env st tmp e = (Inl e, st\<lparr>files := (files st)(tmp := None)\<rparr>)"
proof (cases "files st tmp")
  case None
  then have "(files st)(tmp := None) = files st" by auto
  then show ?thesis using assms None by (simp add: save_cleanup_def os_remove_def)
next
  case (Some c)
  then show ?thesis using assms by (simp add: save_cleanup_def os_remove_def)
qed

lemma save_model_success:
  assumes "save_model self env s path = (Inr (), s')"
  shows "\<exists>items. dump_result env = DumpOk items \<and>
           files s' = (files s)(path \<mapsto> joblib_dump items (bundle_payload self (clock env)))"
proof -
  from assms obtain s1 where
    m: "os_makedirs env s (parent path) = Inr s1"
    by (auto simp: save_model_def split: sum.splits)
  let ?dir = "if \<not> is_absolute path \<and> parts (parent path) = []
              then Path False [''.''] else parent path"
  from assms m obtain tmp s2 where
    t: "mkstemp env s1 ?dir = Inr (tmp, s2)"
    by (auto simp: save_model_def Let_def split: sum.splits)
  have f1: "files s1 = files s" using m by (rule os_makedirs_files)
  have fr: "files s1 tmp = None" and f2: "files s2 = (files s1)(tmp \<mapsto> [])"
    using mkstemp_fresh [OF t] by simp_all
  have nofail: "save_cleanup env st tmp e \<noteq> (Inr (), s')" for st e
    by (auto simp: save_cleanup_def split: sum.splits exn.splits)
  from assms m t nofail obtain items where
    d: "dump_result env = DumpOk items"
    by (cases "dump_result env")
       (auto simp: save_model_def Let_def split: sum.splits option.splits)
  let ?d = "joblib_dump items (bundle_payload self (clock env))"
  let ?s3 = "s2\<lparr>files := (files s2)(tmp \<mapsto> ?d)\<rparr>"
  from assms m t d have r: "os_replace env ?s3 tmp path = Inr s'"
    using nofail
    by (auto simp: save_model_def Let_def split: sum.splits option.splits)
  have "files s' = (files s)(path \<mapsto> ?d)"
  proof (cases "tmp = path")
    case True
    then have "s' = ?s3" using r by (auto simp: os_replace_def split: option.splits if_splits)
    then show ?thesis using True f1 f2 by auto
  next
    case False
    then have "files s' = (files ?s3)(path := files ?s3 tmp, tmp := None)"
      using r by (auto simp: os_replace_def split: option.splits if_splits)
    then show ?thesis using False f1 f2 fr by auto
  qed
  then show ?thesis using d by blast
qed

lemma os_replace_error_class:
  assumes "os_replace env st src dst = Inl x"
    and "\<And>y. replace_error env = Some y \<Longrightarrow> Exception_class y"
  shows "Exception_class x"
  using assms by (auto simp: os_replace_def split: option.splits if_splits)

lemma save_model_failure:
  assumes fail: "save_model self env s path = (Inl e, s')"
    and cl: "close_error env = None" and rm: "remove_error env = None"
    and du: "\<And>c x. dump_result env = DumpFail c x \<Longrightarrow> Exception_class x"
    and re: "\<And>x. replace_error env = Some x \<Longrightarrow> Exception_class x"
  shows "files s' = files s"
proof (cases "os_makedirs env s (parent path)")
  case (Inl x)
  then show ?thesis using fail by (simp add: save_model_def)
next
  case (Inr s1)
  have f1: "files s1 = files s" using Inr by (rule os_makedirs_files)
  let ?dir = "if \<not> is_absolute path \<and> parts (parent path) = []
              then Path False [''.''] else parent path"
  show ?thesis
  proof (cases "mkstemp env s1 ?dir")
    case (Inl x)
    then show ?thesis using fail Inr f1 by (simp add: save_model_def Let_def)
  next
    case mk: (Inr r)
    obtain tmp s2 where r: "r = (tmp, s2)" by (cases r)
    have fr: "files s1 tmp = None" and f2: "files s2 = (files s1)(tmp \<mapsto> [])"
      using mkstemp_fresh [of env s1 ?dir tmp s2] mk r by simp_all
    have undo: "(files st)(tmp := None) = files s"
      if "files st = (files s2)(tmp \<mapsto> c)" for st :: fs and c
      using that f1 f2 fr by auto
    show ?thesis
    proof (cases "dump_result env")
      case (DumpOk items)
      let ?s3 = "s2\<lparr>files := (files s2)(tmp \<mapsto>
                     joblib_dump items (bundle_payload self (clock env)))\<rparr>"
      show ?thesis
      proof (cases "os_replace env ?s3 tmp path")
        case (Inl x)
        then have "Exception_class x" using re by (rule os_replace_error_class)
        then have "save_cleanup env ?s3 tmp x = (Inl x, ?s3\<lparr>files := (files ?s3)(tmp := None)\<rparr>)"
          using rm by (rule save_cleanup_removes)
        then have "s' = ?s3\<lparr>files := (files ?s3)(tmp := None)\<rparr>"
          using fail Inr mk r cl DumpOk Inl by (simp add: save_model_def Let_def)
        then show ?thesis using undo [of ?s3] by simp
      next
        case ok: (Inr s4)
        then show ?thesis
          using fail Inr mk r cl DumpOk by (simp add: save_model_def Let_def)
      qed
    next
      case (DumpFail partial x)
      let ?st = "case partial of None \<Rightarrow> s2 | Some c \<Rightarrow> s2\<lparr>files := (files s2)(tmp \<mapsto> c)\<rparr>"
      have "Exception_class x" using du DumpFail by blast
      then have "save_cleanup env ?st tmp x = (Inl x, ?st\<lparr>files := (files ?st)(tmp := None)\<rparr>)"
        using rm by (rule save_cleanup_removes)
      then have "s' = ?st\<lparr>files := (files ?st)(tmp := None)\<rparr>"
        using fail Inr mk r cl DumpFail by (simp add: save_model_def Let_def)
      moreover have "(files ?st)(tmp := None) = files s"
        using f1 f2 fr by (cases partial) auto
      ultimately show ?thesis by simp
    qed
  qed
qed


text \<open>
  The facts above cover what the tests of the repository exercise: a \<open>joblib.dump\<close> or
  \<open>os.replace\<close> that raises an exception of class \<open>Exception\<close> has its temporary file
  removed and the error raised again (\<open>save_model_failure\<close>), and a call that returns
  has put the stream \<open>joblib.dump\<close> wrote at \<open>path\<close> (\<open>save_model_success\<close>).
\<close>

lemmas save_model_eval =
  save_model_def Let_def os_makedirs_def mkdir_p_def ancestors_def parent_def bundle_path_def
  calm_env_def old_bundle_fs_def mkstemp_def joinpath_def exists_path_def temp_path_def
  os_replace_def save_cleanup_def os_remove_def upt_rec

text \<open>
  C2 at the failing inputs. A save onto the existing bundle \<open>/srv/models/model.pkl\<close>
  during which \<open>joblib.dump\<close> is interrupted by \<open>KeyboardInterrupt\<close> after writing part of
  the stream: \<open>except Exception\<close> does not catch it, the interrupt is raised and the
  temporary file \<open>model-k3x9q2ab.tmp\<close>, which did not exist before, stays in the directory
  with the partial stream. The same save with \<open>os.close(fd)\<close> failing: the call is made
  before the \<open>try\<close>, and the empty temporary file stays. For comparison, when
  \<open>joblib.dump\<close> fails with \<open>OSError\<close> the handler removes the temporary file.
\<close>

theorem save_model_leaves_temp_file:
  "files old_bundle_fs temp_path = None \<and>
   fst (save_model trained_detector
          (calm_env\<lparr>dump_result := DumpFail (Some [DATA]) KeyboardInterrupt\<rparr>)
          old_bundle_fs bundle_path) = Inl KeyboardInterrupt \<and>
   files (snd (save_model trained_detector
          (calm_env\<lparr>dump_result := DumpFail (Some [DATA]) KeyboardInterrupt\<rparr>)
          old_bundle_fs bundle_path)) temp_path = Some [DATA] \<and>
   fst (save_model trained_detector (calm_env\<lparr>close_error := Some OSError\<rparr>)
          old_bundle_fs bundle_path) = Inl OSError \<and>
   files (snd (save_model trained_detector (calm_env\<lparr>close_error := Some OSError\<rparr>)
          old_bundle_fs bundle_path)) temp_path = Some [] \<and>
   fst (save_model trained_detector
          (calm_env\<lparr>dump_result := DumpFail (Some [DATA]) OSError\<rparr>)
          old_bundle_fs bundle_path) = Inl OSError \<and>
   files (snd (save_model trained_detector
          (calm_env\<lparr>dump_result := DumpFail (Some [DATA]) OSError\<rparr>)
          old_bundle_fs bundle_path)) temp_path = None"
  by (simp add: save_model_eval)

section \<open>Unpickling and load_model\<close>

lemma unpickler_load_skips:
  assumes "\<forall>op \<in> set pre. op = DATA \<or> (\<exists>m n. op = GLOBAL m n \<and> fc m n = Inr ())"
  shows "unpickler_load fc (pre @ rest) = unpickler_load fc rest"
  using assms
proof (induction pre)
  case Nil
  then show ?case by simp
next
  case (Cons op pre)
  then show ?case by (cases op) auto
qed

lemma unpickler_load_dump:
  "unpickler_load fc (joblib_dump items p) = Inr v \<Longrightarrow> v = UDict p"
proof (induction items)
  case Nil
  then show ?case by (simp add: joblib_dump_def)
next
  case (Cons it items)
  then show ?case
    by (cases it) (auto simp: joblib_dump_def split: sum.splits)
qed

lemma load_model_dict:
  assumes "files s path = Some ops"
    and "unpickler_load (find_class sfc) ops = Inr (UDict p)"
  shows "load_model sfc s d0 path =
     (case p_meta p of
        Some (MetaRejected e) \<Rightarrow>
          (Inl e, d0\<lparr>model := p_model p, scaler := p_scaler p,
                      feature_names := p_feature_names p\<rparr>)
      | m \<Rightarrow>
          (if p_model p = None \<or> p_scaler p = None \<or> p_feature_names p = None
           then Inl (RuntimeError ''Loaded model bundle is incomplete.'') else Inr (),
           d0\<lparr>model := p_model p, scaler := p_scaler p, feature_names := p_feature_names p,
              meta := (case m of Some (MetaDict d) \<Rightarrow> d | Some (MetaSequence d) \<Rightarrow> d
                       | _ \<Rightarrow> [])\<rparr>))"
  using assms
  by (auto simp: load_model_def load_secure_payload_def exists_path_def Let_def
           split: option.splits meta_field.splits)

lemma load_model_success_dict:
  assumes "files s path = Some ops"
    and "load_model sfc s d0 path = (Inr (), d1)"
  shows "\<exists>p. unpickler_load (find_class sfc) ops = Inr (UDict p) \<and>
             model d1 = p_model p \<and> scaler d1 = p_scaler p \<and>
             feature_names d1 = p_feature_names p"
proof (cases "unpickler_load (find_class sfc) ops")
  case (Inl e)
  then show ?thesis
    using assms
    by (auto simp: load_model_def load_secure_payload_def exists_path_def
             split: exn.splits if_splits)
next
  case (Inr v)
  show ?thesis
  proof (cases v)
    case UOther
    then show ?thesis
      using assms Inr by (auto simp: load_model_def load_secure_payload_def exists_path_def)
  next
    case (UDict p)
    then show ?thesis
      using assms(2) load_model_dict [OF assms(1), of sfc p d0] Inr
      by (auto split: option.splits meta_field.splits if_splits)
  qed
qed

lemma dump_differs:
  assumes "p1 \<noteq> p2"
  shows "joblib_dump items1 p1 \<noteq> joblib_dump items2 p2"
proof
  assume "joblib_dump items1 p1 = joblib_dump items2 p2"
  then have "last (joblib_dump items1 p1) = last (joblib_dump items2 p2)" by simp
  then show False using assms by (simp add: joblib_dump_def)
qed

section \<open>Saving, loading and saving again\<close>

lemma resave_files:
  assumes s1: "save_model x env1 s path = (Inr (), s1)"
    and l: "load_model sfc s1 d0 path = (Inr (), d1)"
    and s2: "save_model d1 env2 s1 path = (Inr (), s2)"
  shows "\<exists>items1 items2.
           files s1 path = Some (joblib_dump items1 (bundle_payload x (clock env1))) \<and>
           files s2 path = Some (joblib_dump items2 (bundle_payload d1 (clock env2))) \<and>
           model d1 = model x \<and> scaler d1 = scaler x \<and> feature_names d1 = feature_names x \<and>
           feature_checksum (feature_names d1) = feature_checksum (feature_names x) \<and>
           (clock env2 \<noteq> clock env1 \<longrightarrow> files s2 path \<noteq> files s1 path)"
proof -
  let ?p1 = "bundle_payload x (clock env1)" and ?p2 = "bundle_payload d1 (clock env2)"
  obtain items1 where f1: "files s1 path = Some (joblib_dump items1 ?p1)"
    using save_model_success [OF s1] by auto
  obtain items2 where f2: "files s2 path = Some (joblib_dump items2 ?p2)"
    using save_model_success [OF s2] by auto
  obtain p where u: "unpickler_load (find_class sfc) (joblib_dump items1 ?p1) = Inr (UDict p)"
    and d: "model d1 = p_model p" "scaler d1 = p_scaler p" "feature_names d1 = p_feature_names p"
    using load_model_success_dict [OF f1 l] by blast
  have "UDict p = UDict ?p1" using unpickler_load_dump [OF u] .
  then have p: "p = ?p1" by simp
  have same: "model d1 = model x" "scaler d1 = scaler x" "feature_names d1 = feature_names x"
    using d by (simp_all add: p bundle_payload_def)
  have "?p2 \<noteq> ?p1" if "clock env2 \<noteq> clock env1"
    using that by (auto simp: bundle_payload_def)
  then have "clock env2 \<noteq> clock env1 \<longrightarrow> files s2 path \<noteq> files s1 path"
    using f1 f2 dump_differs by auto
  then show ?thesis using f1 f2 same by auto
qed


text \<open>
  C5, as amended. Let a trained detector \<open>x\<close> be saved, the bundle be loaded, and the
  loaded detector be saved again. The loaded detector has the model, scaler and feature
  names of \<open>x\<close>, so the feature checksum written by the second save is the one written by
  the first. The second file holds the bundle of the loaded detector stamped with the time
  of the second save: it is not the first file whenever the clock reads differently at
  the two saves.
\<close>

theorem resave_after_load:
  assumes "save_model x env1 s path = (Inr (), s1)"
    and "load_model sfc s1 d0 path = (Inr (), d1)"
    and "save_model d1 env2 s1 path = (Inr (), s2)"
  shows "\<exists>items1 items2.
           files s1 path = Some (joblib_dump items1 (bundle_payload x (clock env1))) \<and>
           files s2 path = Some (joblib_dump items2 (bundle_payload d1 (clock env2))) \<and>
           model d1 = model x \<and> scaler d1 = scaler x \<and> feature_names d1 = feature_names x \<and>
           feature_checksum (feature_names d1) = feature_checksum (feature_names x) \<and>
           (clock env2 \<noteq> clock env1 \<longrightarrow> files s2 path \<noteq> files s1 path)"
  using assms by (rule resave_files)

lemma first_save_ok:
  "save_model trained_detector calm_env old_bundle_fs bundle_path = (Inr (), first_save_fs)"
proof -
  have "fst (save_model trained_detector calm_env old_bundle_fs bundle_path) = Inr ()"
    by (simp add: save_model_eval)
  then show ?thesis by (simp add: first_save_fs_def prod_eq_iff)
qed

lemma first_save_file:
  "files first_save_fs bundle_path =
     Some (joblib_dump [ItemData] (bundle_payload trained_detector (clock calm_env)))"
  using save_model_success [OF first_save_ok] by (auto simp: calm_env_def)

lemma dump_loads:
  "unpickler_load (find_class accept_all) (joblib_dump [ItemData] p) = Inr (UDict p)"
  by (simp add: joblib_dump_def)

lemma reload_ok:
  "load_model accept_all first_save_fs trained_detector bundle_path = (Inr (), reloaded_detector)"
proof -
  have "fst (load_model accept_all first_save_fs trained_detector bundle_path) = Inr ()"
    by (simp add: load_model_dict [OF first_save_file dump_loads] bundle_payload_def
          trained_detector_def)
  then show ?thesis by (simp add: reloaded_detector_def prod_eq_iff)
qed

lemma second_save_ok:
  "save_model reloaded_detector later_env first_save_fs bundle_path =
     (Inr (), snd (save_model reloaded_detector later_env first_save_fs bundle_path))"
proof -
  have "fst (save_model reloaded_detector later_env first_save_fs bundle_path) = Inr ()"
    by (simp add: first_save_fs_def later_env_def save_model_eval)
  then show ?thesis by (simp add: prod_eq_iff)
qed

theorem resave_after_load_witness:
  "feature_names reloaded_detector = Some [''f1'', ''f2''] \<and>
   feature_checksum (feature_names reloaded_detector) =
     feature_checksum (feature_names trained_detector)"
  using resave_after_load [OF first_save_ok reload_ok second_save_ok]
  by (auto simp: trained_detector_def)

text \<open>
  C5 as stated fails: saved again one day later, the file differs from the first one.
\<close>

theorem resave_differs_counterexample:
  "files (snd (save_model reloaded_detector later_env first_save_fs bundle_path)) bundle_path \<noteq>
   files first_save_fs bundle_path"
proof -
  have "clock later_env \<noteq> clock calm_env"
    by (simp add: later_env_def calm_env_def)
  then show ?thesis
    using resave_files [OF first_save_ok reload_ok second_save_ok] by blast
qed

section \<open>Properties of load_model\<close>

lemma load_model_blocked:
  assumes "files s path = Some (pre @ GLOBAL m n # post)"
    and "(m, n) \<in> set BANNED_GLOBALS"
    and "\<forall>op \<in> set pre. op = DATA \<or>
           (\<exists>m' n'. op = GLOBAL m' n' \<and> find_class sfc m' n' = Inr ())"
  shows "load_model sfc s self path =
           (Inl (SecurityError (''Blocked unsafe global reference '' @ m @ ''.'' @ n)), self)"
proof -
  have "unpickler_load (find_class sfc) (pre @ GLOBAL m n # post) =
          Inl (SecurityError (''Blocked unsafe global reference '' @ m @ ''.'' @ n))"
    using assms(2) by (simp add: unpickler_load_skips [OF assms(3)] find_class_def)
  then show ?thesis
    using assms(1) by (simp add: load_model_def load_secure_payload_def exists_path_def)
qed

text \<open>
  C1, as amended. When the unpickler reaches a reference to a deny-listed pair, that is
  when every opcode of the stream before the reference is executed without an error,
  \<open>load_model\<close> raises \<open>SecurityError\<close>, unwrapped, and leaves the detector as it was.
\<close>

theorem load_model_banned_global:
  assumes "files s path = Some (pre @ GLOBAL m n # post)"
    and "(m, n) \<in> set BANNED_GLOBALS"
    and "\<forall>op \<in> set pre. op = DATA \<or>
           (\<exists>m' n'. op = GLOBAL m' n' \<and> find_class sfc m' n' = Inr ())"
  shows "load_model sfc s self path =
           (Inl (SecurityError (''Blocked unsafe global reference '' @ m @ ''.'' @ n)), self)"
  using assms by (rule load_model_blocked)

theorem load_model_banned_global_witness:
  "load_model accept_all
     (one_file_fs malicious_path [DATA, GLOBAL ''posix'' ''system'', DATA, STOP UOther])
     trained_detector malicious_path =
   (Inl (SecurityError ''Blocked unsafe global reference posix.system''), trained_detector)"
proof -
  have "files (one_file_fs malicious_path [DATA, GLOBAL ''posix'' ''system'', DATA, STOP UOther])
          malicious_path = Some ([DATA] @ GLOBAL ''posix'' ''system'' # [DATA, STOP UOther])"
    by (simp add: one_file_fs_def)
  moreover have "(''posix'', ''system'') \<in> set BANNED_GLOBALS"
    by (simp add: BANNED_GLOBALS_def)
  moreover have "\<forall>op \<in> set [DATA]. op = DATA \<or>
           (\<exists>m' n'. op = GLOBAL m' n' \<and> find_class accept_all m' n' = Inr ())"
    by simp
  ultimately show ?thesis
    using load_model_banned_global [of _ malicious_path "[DATA]" "''posix''" "''system''"
            "[DATA, STOP UOther]" accept_all trained_detector]
    by simp
qed

text \<open>
  C1 as stated fails for a stream that references \<open>os.system\<close> after an opcode on which
  the library raises, or after a global whose module cannot be imported: the error that
  comes first is wrapped into the generic \<open>RuntimeError\<close>.
\<close>

theorem load_model_banned_global_counterexample:
  "(''os'', ''system'') \<in> set BANNED_GLOBALS \<and>
   load_model accept_all
     (one_file_fs malicious_path [CORRUPT, GLOBAL ''os'' ''system'', STOP UOther])
     trained_detector malicious_path =
   (Inl (RuntimeError ''Failed to load model bundle''), trained_detector) \<and>
   load_model missing_module
     (one_file_fs malicious_path
        [GLOBAL ''nosuchmodule'' ''thing'', GLOBAL ''os'' ''system'', STOP UOther])
     trained_detector malicious_path =
   (Inl (RuntimeError ''Failed to load model bundle''), trained_detector)"
  by (simp add: BANNED_GLOBALS_def load_model_def load_secure_payload_def exists_path_def
        one_file_fs_def find_class_def missing_module_def)


lemma load_model_result:
  assumes "files s path = Some ops"
  shows "fst (load_model sfc s self path) =
     (case unpickler_load (find_class sfc) ops of
        Inl (SecurityError msg) \<Rightarrow> Inl (SecurityError msg)
      | Inl e \<Rightarrow> if Exception_class e then Inl (RuntimeError ''Failed to load model bundle'')
                 else Inl e
      | Inr UOther \<Rightarrow> Inl (RuntimeError ''Model bundle has unexpected structure'')
      | Inr (UDict p) \<Rightarrow>
          (case p_meta p of
             Some (MetaRejected e) \<Rightarrow> Inl e
           | _ \<Rightarrow>
               if p_model p = None \<or> p_scaler p = None \<or> p_feature_names p = None
               then Inl (RuntimeError ''Loaded model bundle is incomplete.'')
               else Inr ()))"
  using assms
  by (auto simp: load_model_def load_secure_payload_def exists_path_def Let_def
           split: sum.splits exn.splits unpickled.splits option.splits meta_field.splits)

text \<open>
  C4, as amended. On an existing file, \<open>load_model\<close> returns normally exactly when the
  stream deserializes to a dict in which \<open>model\<close>, \<open>scaler\<close> and \<open>feature_names\<close> are
  present and not \<open>None\<close> and whose \<open>meta\<close> is absent or accepted by \<open>dict()\<close>:
  \<open>feature_names\<close> need not be non-empty and \<open>feature_checksum\<close> is not compared. It
  raises \<open>RuntimeError\<close> when deserialization fails with an exception of class
  \<open>Exception\<close> other than \<open>SecurityError\<close> (a corrupt or truncated stream), when the
  object is not a dict, and, for a \<open>meta\<close> that is absent or accepted by \<open>dict()\<close>, when
  one of the three fields is missing or \<open>None\<close>.
\<close>

theorem load_model_checks:
  assumes "files s path = Some ops"
  shows "(fst (load_model sfc s self path) = Inr () \<longleftrightarrow>
            (\<exists>p. unpickler_load (find_class sfc) ops = Inr (UDict p) \<and>
                 p_model p \<noteq> None \<and> p_scaler p \<noteq> None \<and> p_feature_names p \<noteq> None \<and>
                 (\<forall>e. p_meta p \<noteq> Some (MetaRejected e)))) \<and>
         (\<forall>e. unpickler_load (find_class sfc) ops = Inl e \<and> Exception_class e \<and>
              (\<forall>msg. e \<noteq> SecurityError msg) \<longrightarrow>
            fst (load_model sfc s self path) = Inl (RuntimeError ''Failed to load model bundle'')) \<and>
         (unpickler_load (find_class sfc) ops = Inr UOther \<longrightarrow>
            fst (load_model sfc s self path) =
              Inl (RuntimeError ''Model bundle has unexpected structure'')) \<and>
         (\<forall>p. unpickler_load (find_class sfc) ops = Inr (UDict p) \<and>
              (\<forall>e. p_meta p \<noteq> Some (MetaRejected e)) \<and>
              (p_model p = None \<or> p_scaler p = None \<or> p_feature_names p = None) \<longrightarrow>
            fst (load_model sfc s self path) =
              Inl (RuntimeError ''Loaded model bundle is incomplete.''))"
  unfolding load_model_result [OF assms]
  by (auto split: sum.splits exn.splits unpickled.splits option.splits meta_field.splits)

theorem load_model_checks_witness:
  "fst (load_model accept_all old_bundle_fs trained_detector bundle_path) = Inr ()"
proof -
  let ?p = "bundle_payload trained_detector ''2023-12-31T00:00:00+00:00''"
  have f: "files old_bundle_fs bundle_path = Some (joblib_dump [ItemData] ?p)"
    by (simp add: old_bundle_fs_def)
  have "unpickler_load (find_class accept_all) (joblib_dump [ItemData] ?p) = Inr (UDict ?p) \<and>
        p_model ?p \<noteq> None \<and> p_scaler ?p \<noteq> None \<and> p_feature_names ?p \<noteq> None \<and>
        (\<forall>e. p_meta ?p \<noteq> Some (MetaRejected e))"
    by (simp add: dump_loads bundle_payload_def trained_detector_def)
  then show ?thesis
    using load_model_checks [OF f, of accept_all trained_detector] by blast
qed

text \<open>
  C4 as stated fails: a bundle with an empty \<open>feature_names\<close> loads, and so does a bundle
  whose \<open>feature_checksum\<close> is not the digest of its feature names.
\<close>

theorem load_model_unchecked_counterexample:
  "fst (load_model accept_all
          (one_file_fs malicious_path (joblib_dump [ItemData] (unchecked_payload [])))
          trained_detector malicious_path) = Inr () \<and>
   feature_names (snd (load_model accept_all
          (one_file_fs malicious_path (joblib_dump [ItemData] (unchecked_payload [])))
          trained_detector malicious_path)) = Some [] \<and>
   fst (load_model accept_all
          (one_file_fs malicious_path (joblib_dump [ItemData] (unchecked_payload [''f1''])))
          trained_detector malicious_path) = Inr () \<and>
   map_of (meta (snd (load_model accept_all
          (one_file_fs malicious_path (joblib_dump [ItemData] (unchecked_payload [''f1''])))
          trained_detector malicious_path))) (VStr ''feature_checksum'') = Some (VStr ''bad'') \<and>
   feature_checksum (Some [''f1'']) = VSha256 ''f1''"
proof -
  have f: "files (one_file_fs malicious_path ops) malicious_path = Some ops" for ops
    by (simp add: one_file_fs_def)
  show ?thesis
    by (simp add: load_model_dict [OF f dump_loads] unchecked_payload_def feature_checksum_def)
qed


section \<open>Properties of the path check\<close>

lemma resolve_model_path_escape:
  assumes "\<not> is_absolute candidate"
    and "\<not> prefix model_dir (resolve_parts [] (model_dir @ parts candidate))"
  shows "resolve_model_path model_dir env s candidate must_exist =
           (Inl (ValueError ''Model path escapes allowed directory''), s)"
  using assms by (simp add: resolve_model_path_def Let_def)

text \<open>
  The branch for relative paths: a relative path that resolves outside the model
  directory is rejected by \<open>load\<close> and by \<open>save\<close> with \<open>ValueError\<close>, whatever the file
  system holds and without any change to it.
\<close>

lemma relative_escape_rejected:
  assumes "\<not> is_absolute candidate"
    and "\<not> prefix model_dir (resolve_parts [] (model_dir @ parts candidate))"
  shows "load model_dir sfc self env s candidate =
           (Inl (ValueError ''Model path escapes allowed directory''), self, s) \<and>
         save model_dir self env s candidate =
           (Inl (ValueError ''Model path escapes allowed directory''), s)"
  using assms by (simp add: load_def save_def resolve_model_path_escape)

lemma dot_dot_rejected:
  "load models_dir accept_all trained_detector calm_env old_bundle_fs
     (Path False [''..'', ''evil.pkl'']) =
     (Inl (ValueError ''Model path escapes allowed directory''), trained_detector, old_bundle_fs)"
proof -
  have "\<not> is_absolute (Path False [''..'', ''evil.pkl''])" by simp
  moreover have "\<not> prefix models_dir
      (resolve_parts [] (models_dir @ parts (Path False [''..'', ''evil.pkl''])))"
    by (simp add: models_dir_def)
  ultimately show ?thesis using relative_escape_rejected by blast
qed

text \<open>
  C3 at the failing input. With the model directory \<open>/srv/models\<close>, the absolute path
  \<open>/tmp/evil.pkl\<close> lies outside it. The branch for absolute paths makes no containment
  check: \<open>load\<close> reads the bundle stored there and returns normally, and \<open>save\<close>
  writes a bundle there and returns the path.
\<close>

theorem absolute_path_escapes_model_dir:
  "is_absolute outside_path \<and>
   \<not> prefix models_dir (resolve_parts [] (parts outside_path)) \<and>
   fst (load models_dir accept_all trained_detector calm_env
          (one_file_fs outside_path
             (joblib_dump [ItemData] (bundle_payload trained_detector [])))
          outside_path) = Inr () \<and>
   fst (save models_dir trained_detector calm_env old_bundle_fs outside_path) =
     Inr outside_path \<and>
   files (snd (save models_dir trained_detector calm_env old_bundle_fs outside_path))
     outside_path \<noteq> None"
proof -
  have f: "files (one_file_fs outside_path ops) outside_path = Some ops" for ops
    by (simp add: one_file_fs_def)
  have l: "fst (load_model accept_all (s\<lparr>dirs := ds\<rparr>) trained_detector outside_path) = Inr ()"
    if "files s outside_path = Some (joblib_dump [ItemData] (bundle_payload trained_detector []))"
    for s :: fs and ds
    using that load_model_dict [of "s\<lparr>dirs := ds\<rparr>" outside_path _ accept_all, OF _ dump_loads]
    by (simp add: bundle_payload_def trained_detector_def)
  show ?thesis
    using l [OF f]
    by (simp add: outside_path_def models_dir_def load_def save_def resolve_model_path_def
          one_file_fs_def save_model_eval split: prod.splits)
       (metis fst_conv)
qed

end
